theory Spec2Isabelle
  imports Main "HOL-Library.AList"
begin

section \<open>Data model of blob/parser.py\<close>

text \<open>
  Exceptions are values. \<open>BlobException\<close> is the configuration error of the
  package; the other constructors are the Python built-in exceptions that the
  parser can let escape. Each carries the text that \<open>str(e)\<close> gives.
\<close>

datatype error =
    BlobException string
  | KeyError string
  | TypeError string
  | AttributeError string
  | OtherException string

text \<open>The single quote that the messages put around names.\<close>

definition sq :: string where
  "sq = [CHR 0x27]"

fun str_error :: "error \<Rightarrow> string" where
  "str_error (BlobException msg) = msg"
| "str_error (KeyError k) = sq @ k @ sq"
| "str_error (TypeError msg) = msg"
| "str_error (AttributeError msg) = msg"
| "str_error (OtherException msg) = msg"

text \<open>Python dictionaries are association lists in insertion order: \<open>d[k]\<close> is
  \<^const>\<open>map_of\<close>, \<open>d[k] = v\<close> is \<^const>\<open>AList.update\<close> (an existing key keeps its
  place, a new key is appended).\<close>

type_synonym ('k, 'v) dict = "('k \<times> 'v) list"


text \<open>Modelled from the spec: repository.Option, a named slot whose value is a
  string or unset. Option objects live in a store and are referred to by address,
  since the merge indexes alias the objects held by the repositories.\<close>

record RepoOption =
  o_name :: string
  o_value :: "string option"

type_synonym addr = nat
type_synonym store = "addr \<Rightarrow> RepoOption"

text \<open>Modelled from the spec: module.Module, constructed as
  \<open>Module(repository, filename, path)\<close> with no name, no functions and no
  dependencies; the owning repository is referred to by its name. The callbacks are
  opaque handles of type \<open>'f\<close>. The class defines no
  equality of its own, so Python's \<open>in\<close> compares object identity; a module object is
  determined by its owning repository and its loading-unit path, both fields here,
  so equality of records stands for identity of objects.\<close>

record 'f Module =
  m_repository :: "string option"
  m_filename :: string
  m_path :: string
  m_name :: "string option"
  m_functions :: "(string, 'f) dict"
  m_dependencies :: "string list"

definition new_Module :: "string option \<Rightarrow> string \<Rightarrow> string \<Rightarrow> 'f Module" where
  "new_Module repository filename path =
     \<lparr>m_repository = repository, m_filename = filename, m_path = path, m_name = None,
      m_functions = [], m_dependencies = []\<rparr>"

text \<open>Modelled from the spec: repository.Repository. \<open>modules\<close> maps a loading-unit
  path to the loaded module or to the placeholder \<open>None\<close>; \<open>options\<close> maps an option
  name to its Option object.\<close>

record 'f Repository =
  r_path :: string
  r_name :: "string option"
  r_modules :: "(string, 'f Module option) dict"
  r_options :: "(string, addr) dict"

text \<open>Modelled from the spec: environment.Environment, the registry of the modules
  that passed gating, keyed by qualified name.\<close>

record 'f Environment =
  e_modules :: "(string, 'f Module) dict"

record 'f Parser =
  p_repositories :: "(string, 'f Repository) dict"
  p_modules :: "(string, 'f Module) dict"
  p_environment :: "'f Environment"

text \<open>Modelled from the spec: Environment.get_module, which fails with a
  lookup error when the name has no entry.\<close>

definition get_module :: "'f Environment \<Rightarrow> string \<Rightarrow> error + 'f Module" where
  "get_module env modulename =
     (case map_of (e_modules env) modulename of
        None \<Rightarrow> Inl (KeyError modulename)
      | Some m \<Rightarrow> Inr m)"

section \<open>resolve_dependencies\<close>

text \<open>The first loop: every requested name is looked up and appended.\<close>

fun lookup_requested ::
  "'f Environment \<Rightarrow> 'f Module list \<Rightarrow> string list \<Rightarrow> error + 'f Module list" where
  "lookup_requested env selected_modules [] = Inr selected_modules"
| "lookup_requested env selected_modules (modulename # rest) =
     (case get_module env modulename of
        Inl e \<Rightarrow> Inl e
      | Inr m \<Rightarrow> lookup_requested env (selected_modules @ [m]) rest)"

text \<open>\<open>for dependency_name in m.dependencies\<close>: a dependency that is neither selected
  nor already queued is appended to \<open>additional\<close>.\<close>

fun scan_dependencies ::
  "'f Environment \<Rightarrow> 'f Module list \<Rightarrow> 'f Module list \<Rightarrow> string list
     \<Rightarrow> error + 'f Module list" where
  "scan_dependencies env selected_modules additional [] = Inr additional"
| "scan_dependencies env selected_modules additional (dependency_name # rest) =
     (case get_module env dependency_name of
        Inl e \<Rightarrow> Inl e
      | Inr dependency \<Rightarrow>
          scan_dependencies env selected_modules
            (if dependency \<notin> set selected_modules \<and> dependency \<notin> set additional
             then additional @ [dependency] else additional)
            rest)"

text \<open>\<open>for m in current\<close>.\<close>

fun scan_current ::
  "'f Environment \<Rightarrow> 'f Module list \<Rightarrow> 'f Module list \<Rightarrow> 'f Module list
     \<Rightarrow> error + 'f Module list" where
  "scan_current env selected_modules additional [] = Inr additional"
| "scan_current env selected_modules additional (m # rest) =
     (case scan_dependencies env selected_modules additional (m_dependencies m) of
        Inl e \<Rightarrow> Inl e
      | Inr additional' \<Rightarrow> scan_current env selected_modules additional' rest)"

text \<open>\<open>while 1\<close>: the loop has no bound of its own, so not returning is the value
  \<open>None\<close>. In the first round \<open>current\<close> is the list object \<open>selected_modules\<close> itself;
  it is extended only after the inner iteration has finished and \<open>current\<close> is rebound
  right after, so the alias is never observed.\<close>

partial_function (option) resolve_loop ::
  "'f Environment \<Rightarrow> 'f Module list \<Rightarrow> 'f Module list \<Rightarrow> (error + 'f Module list) option" where
  "resolve_loop env selected_modules current =
     (case scan_current env selected_modules [] current of
        Inl e \<Rightarrow> Some (Inl e)
      | Inr additional \<Rightarrow>
          if additional = [] then Some (Inr selected_modules)
          else resolve_loop env (selected_modules @ additional) additional)"

declare resolve_loop.simps [code]

definition resolve_dependencies ::
  "'f Parser \<Rightarrow> 'x \<Rightarrow> string list \<Rightarrow> (error + 'f Module list) option" where
  "resolve_dependencies self modules requested_modules =
     (case lookup_requested (p_environment self) [] requested_modules of
        Inl e \<Rightarrow> Some (Inl e)
      | Inr selected_modules \<Rightarrow>
          resolve_loop (p_environment self) selected_modules selected_modules)"

section \<open>merge_repository_options\<close>

text \<open>\<open>str.split(sep)\<close> for a one-character separator: every occurrence splits, and
  the result is never empty.\<close>

fun str_split :: "char \<Rightarrow> string \<Rightarrow> string list" where
  "str_split sep [] = [ [] ]"
| "str_split sep (c # cs) =
     (if c = sep then [] # str_split sep cs
      else (case str_split sep cs of
              [] \<Rightarrow> [ [c] ]
            | w # ws \<Rightarrow> (c # w) # ws))"

text \<open>A value used as a dictionary key. The dictionaries of the parser are keyed by
  strings; subscripting one with a list raises \<open>TypeError\<close> before any lookup,
  because a list cannot be hashed, and a missing string key raises \<open>KeyError\<close>.\<close>

datatype key = Str string | List "string list"

definition getitem :: "(string, 'v) dict \<Rightarrow> key \<Rightarrow> error + 'v" where
  "getitem d k =
     (case k of
        List xs \<Rightarrow> Inl (TypeError (''unhashable type: '' @ sq @ ''list'' @ sq))
      | Str s \<Rightarrow> (case map_of d s of None \<Rightarrow> Inl (KeyError s) | Some v \<Rightarrow> Inr v))"

text \<open>The first nested iteration: both indexes are filled from every option of every
  repository. The lists of the bare-name index hold the same Option objects
  (addresses) as the full-name index.\<close>

text \<open>\<open>d.get(k, [])\<close> on the bare-name index.\<close>

definition lookup_list :: "(string, addr list) dict \<Rightarrow> string \<Rightarrow> addr list" where
  "lookup_list d k = (case map_of d k of None \<Rightarrow> [] | Some l \<Rightarrow> l)"

fun index_options ::
  "string \<Rightarrow> (string, addr) dict \<times> (string, addr list) dict \<Rightarrow> (string, addr) dict
     \<Rightarrow> (string, addr) dict \<times> (string, addr list) dict" where
  "index_options repo_name idx [] = idx"
| "index_options repo_name idx ((config_name, v) # rest) =
     (let name = repo_name @ '':'' @ config_name;
          repo_options_by_full_name = AList.update name v (fst idx);
          option_list = lookup_list (snd idx) config_name;
          repo_options_by_option_name =
            AList.update config_name (option_list @ [v]) (snd idx)
      in index_options repo_name
           (repo_options_by_full_name, repo_options_by_option_name) rest)"

fun index_repositories ::
  "(string, addr) dict \<times> (string, addr list) dict \<Rightarrow> (string, 'f Repository) dict
     \<Rightarrow> (string, addr) dict \<times> (string, addr list) dict" where
  "index_repositories idx [] = idx"
| "index_repositories idx ((repo_name, repo) # rest) =
     index_repositories (index_options repo_name idx (r_options repo)) rest"

text \<open>\<open>option.value = value\<close> on the object at an address.\<close>

definition set_value :: "store \<Rightarrow> addr \<Rightarrow> string \<Rightarrow> store" where
  "set_value h option v = h(option := (h option)\<lparr>o_value := Some v\<rparr>)"

text \<open>\<open>for option in repo_options_by_option_name[option_name]: option.value = value\<close>.\<close>

fun set_values :: "store \<Rightarrow> string \<Rightarrow> addr list \<Rightarrow> store" where
  "set_values h v [] = h"
| "set_values h v (option # rest) = set_values (set_value h option v) v rest"

definition invalid_option_message :: "string \<Rightarrow> string" where
  "invalid_option_message config_name = ''Invalid option '' @ sq @ config_name @ sq"

text \<open>The body of the override loop for one entry of \<open>config_options\<close>. In the
  qualified branch the source subscripts the full-name index with \<open>name\<close>, which at
  that point is the list returned by \<open>split\<close>.\<close>

definition apply_override ::
  "(string, addr) dict \<Rightarrow> (string, addr list) dict \<Rightarrow> store \<Rightarrow> string \<times> string
     \<Rightarrow> error + store" where
  "apply_override repo_options_by_full_name repo_options_by_option_name h entry =
     (let config_name = fst entry; v = snd entry;
          name = str_split CHR '':'' config_name
      in if length name = 2 then
           (let repo_name = name ! 0; option_name = name ! 1
            in if repo_name = [] then
                 (case getitem repo_options_by_option_name (Str option_name) of
                    Inl e \<Rightarrow> Inl e
                  | Inr options \<Rightarrow> Inr (set_values h v options))
               else
                 (case getitem repo_options_by_full_name (List name) of
                    Inl e \<Rightarrow> Inl e
                  | Inr option \<Rightarrow> Inr (set_value h option v)))
         else if length name = 3 then Inr h
         else Inl (BlobException (invalid_option_message config_name)))"

fun apply_overrides ::
  "(string, addr) dict \<Rightarrow> (string, addr list) dict \<Rightarrow> store \<Rightarrow> (string, string) dict
     \<Rightarrow> error + store" where
  "apply_overrides by_full by_name h [] = Inr h"
| "apply_overrides by_full by_name h (entry # rest) =
     (case apply_override by_full by_name h entry of
        Inl e \<Rightarrow> Inl e
      | Inr h' \<Rightarrow> apply_overrides by_full by_name h' rest)"

definition unknown_value_message :: "string \<Rightarrow> string" where
  "unknown_value_message option_name =
     ''Unknown value for option '' @ sq @ option_name @ sq
       @ ''.Please provide a value in the configuration file.''"

text \<open>The last loop: the first Option of the full-name index without a value aborts
  the merge.\<close>

fun check_values :: "store \<Rightarrow> addr list \<Rightarrow> error + unit" where
  "check_values h [] = Inr ()"
| "check_values h (option # rest) =
     (if o_value (h option) = None
      then Inl (BlobException (unknown_value_message (o_name (h option))))
      else check_values h rest)"

text \<open>The three blocks of the method: both indexes are built from the repositories of
  the parser, the override loop runs over \<open>config_options\<close>, and the values are
  checked. The result is the full-name index together with the store the overrides
  have written to.\<close>

definition build_indexes ::
  "'f Parser \<Rightarrow> (string, addr) dict \<times> (string, addr list) dict" where
  "build_indexes self = index_repositories ([], []) (p_repositories self)"

definition apply_config :: "'f Parser \<Rightarrow> store \<Rightarrow> (string, string) dict \<Rightarrow> error + store" where
  "apply_config self h config_options =
     apply_overrides (fst (build_indexes self)) (snd (build_indexes self)) h config_options"

definition merge_repository_options ::
  "'f Parser \<Rightarrow> store \<Rightarrow> (string, string) dict \<Rightarrow> error + ((string, addr) dict \<times> store)" where
  "merge_repository_options self h config_options =
     (case apply_config self h config_options of
        Inl e \<Rightarrow> Inl e
      | Inr h' \<Rightarrow>
          (case check_values h' (map snd (fst (build_indexes self))) of
             Inl e \<Rightarrow> Inl e
           | Inr u \<Rightarrow> Inr (fst (build_indexes self), h')))"

text \<open>Every Option declared by a repository of the parser, with the bare name it is
  declared under; the same declarations under their qualified names
  \<open>repository:option\<close>; and these qualified names alone. All in declaration order.\<close>

definition declared_options :: "'f Parser \<Rightarrow> (string \<times> addr) list" where
  "declared_options self = concat (map (\<lambda>(repo_name, repo). r_options repo) (p_repositories self))"

definition qualified_options :: "'f Parser \<Rightarrow> (string \<times> addr) list" where
  "qualified_options self =
     concat (map (\<lambda>(rn, r). map (\<lambda>(cn, a). (rn @ '':'' @ cn, a)) (r_options r))
       (p_repositories self))"


section \<open>prepare_modules\<close>









section \<open>_parse_module\<close>

text \<open>\<open>os.path.dirname\<close> on POSIX paths: everything up to the last slash, with
  trailing slashes removed unless the head consists of slashes only.\<close>

definition dirname :: "string \<Rightarrow> string" where
  "dirname p =
     (let head = rev (dropWhile (\<lambda>c. c \<noteq> CHR ''/'') (rev p))
      in if head \<noteq> [] \<and> \<not> list_all (\<lambda>c. c = CHR ''/'') head
         then rev (dropWhile (\<lambda>c. c = CHR ''/'') (rev head))
         else head)"

definition no_function_message :: "string \<Rightarrow> string" where
  "no_function_message functionname = ''No function '' @ sq @ functionname @ sq @ '' found!''"

definition no_module_name_message :: string where
  "no_module_name_message =
     ''The init(module) function must set a module name! Please use the set_name() method.''"

definition while_parsing_message :: "string \<Rightarrow> error \<Rightarrow> string" where
  "while_parsing_message modulefile e =
     ''While parsing '' @ sq @ modulefile @ sq @ '': '' @ str_error e"

text \<open>\<open>for functionname in ['init', 'prepare', 'build']\<close>: \<open>local.get\<close> gives \<open>None\<close>
  for a name the unit does not define.\<close>

fun get_functions ::
  "(string, 'f) dict \<Rightarrow> 'f Module \<Rightarrow> string list \<Rightarrow> error + 'f Module" where
  "get_functions local m [] = Inr m"
| "get_functions local m (functionname # rest) =
     (case map_of local functionname of
        None \<Rightarrow> Inl (BlobException (no_function_message functionname))
      | Some f \<Rightarrow>
          get_functions local
            (m\<lparr>m_functions := AList.update functionname f (m_functions m)\<rparr>) rest)"

text \<open>Modelled from the spec: reading, compiling and executing the definition unit is
  \<open>exec_file\<close>, which gives the namespace \<open>local\<close> or the exception raised on the way.
  The \<open>init\<close> callback is opaque user code, by contract setting the module's name and
  appending to its dependency list: \<open>call_init f m\<close> is the exception it raises, or the
  name it has set (\<open>None\<close> when it set none) with the dependency names it has added.
  This is the body of the \<open>try\<close> block.\<close>

definition parse_module_body ::
  "(string \<Rightarrow> error + (string, 'f) dict)
     \<Rightarrow> ('f \<Rightarrow> 'f Module \<Rightarrow> error + (string option \<times> string list))
     \<Rightarrow> 'f Repository \<Rightarrow> string \<Rightarrow> error + 'f Module" where
  "parse_module_body exec_file call_init repo modulefile =
     (case exec_file modulefile of
        Inl e \<Rightarrow> Inl e
      | Inr local \<Rightarrow>
          (case get_functions local
                  (new_Module (r_name repo) modulefile (dirname modulefile))
                  [''init'', ''prepare'', ''build''] of
             Inl e \<Rightarrow> Inl e
           | Inr m \<Rightarrow>
               (case getitem (m_functions m) (Str ''init'') of
                  Inl e \<Rightarrow> Inl e
                | Inr f \<Rightarrow>
                    (case call_init f m of
                       Inl e \<Rightarrow> Inl e
                     | Inr (n, deps) \<Rightarrow>
                         if n = None then Inl (BlobException no_module_name_message)
                         else Inr (m\<lparr>m_name := n,
                                     m_dependencies := m_dependencies m @ deps\<rparr>)))))"

text \<open>\<open>except Exception as e\<close>: whatever the body raises is wrapped.\<close>

definition parse_module ::
  "(string \<Rightarrow> error + (string, 'f) dict)
     \<Rightarrow> ('f \<Rightarrow> 'f Module \<Rightarrow> error + (string option \<times> string list))
     \<Rightarrow> 'f Repository \<Rightarrow> string \<Rightarrow> error + 'f Module" where
  "parse_module exec_file call_init repo modulefile =
     (case parse_module_body exec_file call_init repo modulefile of
        Inl e \<Rightarrow> Inl (BlobException (while_parsing_message modulefile e))
      | Inr m \<Rightarrow> Inr m)"

section \<open>Example configurations\<close>

text \<open>Modules of one repository \<open>core\<close>, with callback handles written as strings, and two
  environments: a chain \<open>a \<rightarrow> b \<rightarrow> c\<close> and a cycle \<open>a \<rightarrow> b \<rightarrow> a\<close>.\<close>

definition example_module :: "string \<Rightarrow> string list \<Rightarrow> string Module" where
  "example_module n deps =
     \<lparr>m_repository = Some ''core'', m_filename = ''core/'' @ n @ ''.py'', m_path = ''core'',
      m_name = Some n,
      m_functions = [(''init'', n @ ''.init''), (''prepare'', n @ ''.prepare''),
                     (''build'', n @ ''.build'')],
      m_dependencies = deps\<rparr>"

definition chain_parser :: "string Parser" where
  "chain_parser =
     \<lparr>p_repositories = [], p_modules = [],
      p_environment = \<lparr>e_modules =
        [(''core:a'', example_module ''a'' [''core:b'']),
         (''core:b'', example_module ''b'' [''core:c'']),
         (''core:c'', example_module ''c'' [])]\<rparr>\<rparr>"

definition cycle_parser :: "string Parser" where
  "cycle_parser =
     \<lparr>p_repositories = [], p_modules = [],
      p_environment = \<lparr>e_modules =
        [(''core:a'', example_module ''a'' [''core:b'']),
         (''core:b'', example_module ''b'' [''core:a''])]\<rparr>\<rparr>"

text \<open>Two repositories: \<open>core\<close> declares \<open>arch\<close> without a default, \<open>ext\<close> declares \<open>arch\<close>
  without a default and \<open>cpu\<close> with the default \<open>m0\<close>.\<close>

definition options_parser :: "string Parser" where
  "options_parser =
     \<lparr>p_repositories =
        [(''core'', \<lparr>r_path = ''core'', r_name = Some ''core'', r_modules = [],
                     r_options = [(''arch'', 0)]\<rparr>),
         (''ext'', \<lparr>r_path = ''ext'', r_name = Some ''ext'', r_modules = [],
                    r_options = [(''arch'', 1), (''cpu'', 2)]\<rparr>)],
      p_modules = [], p_environment = \<lparr>e_modules = []\<rparr>\<rparr>"

definition options_store :: store where
  "options_store =
     (\<lambda>a. if a = 2 then \<lparr>o_name = ''cpu'', o_value = Some ''m0''\<rparr>
          else \<lparr>o_name = ''arch'', o_value = None\<rparr>)"



text \<open>Definition units of the repository \<open>core\<close>: \<open>uart.py\<close> and \<open>alt/uart.py\<close> both
  name their module \<open>uart\<close>, \<open>spi.py\<close> is complete but gated out, \<open>bad.py\<close> defines no
  \<open>prepare\<close>, and the \<open>init\<close> of \<open>anon.py\<close> sets no name.\<close>

definition example_units :: "string \<Rightarrow> error + (string, string) dict" where
  "example_units modulefile =
     (if modulefile = ''core/uart.py'' then
        Inr [(''init'', ''uart.init''), (''prepare'', ''uart.prepare''),
             (''build'', ''uart.build'')]
      else if modulefile = ''core/bad.py'' then
        Inr [(''init'', ''bad.init''), (''build'', ''bad.build'')]
      else if modulefile = ''core/anon.py'' then
        Inr [(''init'', ''anon.init''), (''prepare'', ''anon.prepare''),
             (''build'', ''anon.build'')]
      else Inl (OtherException ''No such file or directory''))"

definition example_init :: "string \<Rightarrow> string Module \<Rightarrow> error + (string option \<times> string list)" where
  "example_init f m =
     (if f = ''uart.init'' then Inr (Some ''uart'', [])
      else if f = ''anon.init'' then Inr (None, [''core:uart''])
      else Inl (OtherException ''not callable''))"


definition gating_module :: "string \<Rightarrow> string \<Rightarrow> string Module" where
  "gating_module file n =
     \<lparr>m_repository = Some ''core'', m_filename = file, m_path = dirname file,
      m_name = Some n,
      m_functions = [(''init'', n @ ''.init''), (''prepare'', n @ ''.prepare''),
                     (''build'', n @ ''.build'')],
      m_dependencies = []\<rparr>"

definition gating_repository :: "string Repository" where
  "gating_repository =
     \<lparr>r_path = ''core'', r_name = Some ''core'',
      r_modules = [(''core/uart.py'', Some (gating_module ''core/uart.py'' ''uart'')),
                   (''core/spi.py'', Some (gating_module ''core/spi.py'' ''spi'')),
                   (''core/alt/uart.py'', Some (gating_module ''core/alt/uart.py'' ''uart''))],
      r_options = [(''arch'', 0)]\<rparr>"


section \<open>Properties of resolve_dependencies\<close>

lemma get_module_Inr:
  "get_module env n = Inr m \<longleftrightarrow> map_of (e_modules env) n = Some m"
  by (simp add: get_module_def split: option.splits)

lemma lookup_requested_Inr:
  "lookup_requested env sel req = Inr res \<Longrightarrow>
     map Some res = map Some sel @ map (map_of (e_modules env)) req"
proof (induction req arbitrary: sel)
  case Nil
  then show ?case by simp
next
  case (Cons n req)
  then show ?case
    by (auto simp: get_module_Inr split: sum.splits)
qed

lemma lookup_requested_total:
  "\<forall>n\<in>set req. map_of (e_modules env) n \<noteq> None \<Longrightarrow>
     \<exists>res. lookup_requested env sel req = Inr res"
proof (induction req arbitrary: sel)
  case Nil
  then show ?case by simp
next
  case (Cons n req)
  then obtain m where "map_of (e_modules env) n = Some m" by auto
  then have "get_module env n = Inr m" by (simp add: get_module_Inr)
  with Cons show ?case by simp
qed

lemma scan_dependencies_Inr:
  "scan_dependencies env sel add dns = Inr add' \<Longrightarrow> distinct add \<Longrightarrow> set add \<inter> set sel = {} \<Longrightarrow>
     set add \<subseteq> ran (map_of (e_modules env)) \<Longrightarrow>
     distinct add' \<and> set add' \<inter> set sel = {} \<and> set add' \<subseteq> ran (map_of (e_modules env))
       \<and> set add \<subseteq> set add'"
proof (induction dns arbitrary: add)
  case Nil
  then show ?case by simp
next
  case (Cons d dns)
  from Cons.prems(1) obtain dep where dep: "get_module env d = Inr dep"
    by (auto split: sum.splits)
  let ?a = "if dep \<notin> set sel \<and> dep \<notin> set add then add @ [dep] else add"
  from Cons.prems(1) dep have run: "scan_dependencies env sel ?a dns = Inr add'"
    by simp
  from dep have "dep \<in> ran (map_of (e_modules env))"
    by (auto simp: get_module_Inr ran_def)
  with Cons.prems have "distinct ?a" "set ?a \<inter> set sel = {}"
    "set ?a \<subseteq> ran (map_of (e_modules env))" "set add \<subseteq> set ?a"
    by auto
  with Cons.IH [OF run] show ?case by blast
qed

lemma scan_current_Inr:
  "scan_current env sel add cur = Inr add' \<Longrightarrow> distinct add \<Longrightarrow> set add \<inter> set sel = {} \<Longrightarrow>
     set add \<subseteq> ran (map_of (e_modules env)) \<Longrightarrow>
     distinct add' \<and> set add' \<inter> set sel = {} \<and> set add' \<subseteq> ran (map_of (e_modules env))
       \<and> set add \<subseteq> set add'"
proof (induction cur arbitrary: add)
  case Nil
  then show ?case by simp
next
  case (Cons m cur)
  from Cons.prems(1) obtain a where a: "scan_dependencies env sel add (m_dependencies m) = Inr a"
    and run: "scan_current env sel a cur = Inr add'"
    by (auto split: sum.splits)
  from scan_dependencies_Inr [OF a Cons.prems(2-4)] Cons.IH [OF run] show ?case by blast
qed

lemma scan_dependencies_total:
  "\<forall>d\<in>set dns. map_of (e_modules env) d \<noteq> None \<Longrightarrow>
     \<exists>add'. scan_dependencies env sel add dns = Inr add'"
proof (induction dns arbitrary: add)
  case Nil
  then show ?case by simp
next
  case (Cons d dns)
  then obtain m where "map_of (e_modules env) d = Some m" by auto
  then have "get_module env d = Inr m" by (simp add: get_module_Inr)
  with Cons show ?case by simp
qed

lemma scan_current_total:
  "\<forall>m\<in>set cur. \<forall>d\<in>set (m_dependencies m). map_of (e_modules env) d \<noteq> None \<Longrightarrow>
     \<exists>add'. scan_current env sel add cur = Inr add'"
proof (induction cur arbitrary: add)
  case Nil
  then show ?case by simp
next
  case (Cons m cur)
  then obtain a where "scan_dependencies env sel add (m_dependencies m) = Inr a"
    using scan_dependencies_total [of "m_dependencies m" env sel add] by auto
  with Cons show ?case by simp
qed

lemma finite_ran_map_of: "finite (ran (map_of xs))"
  by (rule finite_ran) (rule finite_dom_map_of)

lemma card_unselected_less:
  assumes "additional \<noteq> []" "set additional \<inter> set sel = {}"
    "set additional \<subseteq> ran (map_of xs)"
  shows "card (ran (map_of xs) - set (sel @ additional)) < card (ran (map_of xs) - set sel)"
proof (rule psubset_card_mono)
  show "finite (ran (map_of xs) - set sel)" by (simp add: finite_ran_map_of)
  from assms obtain x where "x \<in> set additional" by (cases additional) auto
  with assms show "ran (map_of xs) - set (sel @ additional) \<subset> ran (map_of xs) - set sel"
    by auto
qed

lemma resolve_loop_terminates:
  assumes closed: "\<forall>m\<in>ran (map_of (e_modules env)). \<forall>d\<in>set (m_dependencies m).
      map_of (e_modules env) d \<noteq> None"
  shows "set cur \<subseteq> ran (map_of (e_modules env)) \<Longrightarrow> \<exists>res. resolve_loop env sel cur = Some (Inr res)"
proof (induction "card (ran (map_of (e_modules env)) - set sel)" arbitrary: sel cur rule: less_induct)
  case less
  from closed less.prems obtain additional where sc: "scan_current env sel [] cur = Inr additional"
    using scan_current_total [of cur env sel "[]"] by blast
  show ?case
  proof (cases "additional = []")
    case True
    with sc show ?thesis by (subst resolve_loop.simps) simp
  next
    case False
    from scan_current_Inr [OF sc] have props: "set additional \<inter> set sel = {}"
      "set additional \<subseteq> ran (map_of (e_modules env))" by simp_all
    from less.hyps [OF card_unselected_less [OF False props] props(2)]
    obtain res where "resolve_loop env (sel @ additional) additional = Some (Inr res)" by blast
    with sc False show ?thesis by (subst resolve_loop.simps) simp
  qed
qed

text \<open>On every input the loop exits, with the selection or with a lookup error.\<close>

lemma resolve_loop_exits: "\<exists>r. resolve_loop env sel cur = Some r"
proof (induction "card (ran (map_of (e_modules env)) - set sel)" arbitrary: sel cur rule: less_induct)
  case less
  show ?case
  proof (cases "scan_current env sel [] cur")
    case (Inl e)
    then show ?thesis by (subst resolve_loop.simps) simp
  next
    case (Inr additional)
    show ?thesis
    proof (cases "additional = []")
      case True
      with Inr show ?thesis by (subst resolve_loop.simps) simp
    next
      case False
      from scan_current_Inr [OF Inr] have props: "set additional \<inter> set sel = {}"
        "set additional \<subseteq> ran (map_of (e_modules env))" by simp_all
      from less.hyps [OF card_unselected_less [OF False props]]
      obtain r where "resolve_loop env (sel @ additional) additional = Some r" by blast
      with Inr False show ?thesis by (subst resolve_loop.simps) simp
    qed
  qed
qed

lemma resolve_loop_distinct:
  "resolve_loop env sel cur = Some (Inr res) \<Longrightarrow> distinct sel \<Longrightarrow> distinct res"
proof (induction "card (ran (map_of (e_modules env)) - set sel)" arbitrary: sel cur rule: less_induct)
  case less
  from less.prems(1) obtain additional where sc: "scan_current env sel [] cur = Inr additional"
    by (subst (asm) resolve_loop.simps) (auto split: sum.splits)
  show ?case
  proof (cases "additional = []")
    case True
    with sc less.prems show ?thesis by (subst (asm) resolve_loop.simps) simp
  next
    case False
    from scan_current_Inr [OF sc] have props: "set additional \<inter> set sel = {}"
      "set additional \<subseteq> ran (map_of (e_modules env))" "distinct additional" by simp_all
    from sc False less.prems(1) have run: "resolve_loop env (sel @ additional) additional = Some (Inr res)"
      by (subst (asm) resolve_loop.simps) simp
    from props less.prems(2) have "distinct (sel @ additional)" by auto
    from less.hyps [OF card_unselected_less [OF False props(1,2)] run this] show ?thesis .
  qed
qed

lemma resolve_loop_prefix:
  "resolve_loop env sel cur = Some (Inr res) \<Longrightarrow> \<exists>more. res = sel @ more"
proof (induction "card (ran (map_of (e_modules env)) - set sel)" arbitrary: sel cur rule: less_induct)
  case less
  from less.prems(1) obtain additional where sc: "scan_current env sel [] cur = Inr additional"
    by (subst (asm) resolve_loop.simps) (auto split: sum.splits)
  show ?case
  proof (cases "additional = []")
    case True
    with sc less.prems show ?thesis by (subst (asm) resolve_loop.simps) simp
  next
    case False
    from scan_current_Inr [OF sc] have props: "set additional \<inter> set sel = {}"
      "set additional \<subseteq> ran (map_of (e_modules env))" by simp_all
    from sc False less.prems(1) have run: "resolve_loop env (sel @ additional) additional = Some (Inr res)"
      by (subst (asm) resolve_loop.simps) simp
    from less.hyps [OF card_unselected_less [OF False props] run] show ?thesis by auto
  qed
qed

lemma ran_map_of_entries: "ran (map_of xs) \<subseteq> snd ` set xs"
  by (auto simp: ran_def dest!: map_of_SomeD intro: rev_image_eqI)

lemma ball_ran_map_of: "\<forall>m\<in>snd ` set xs. P m \<Longrightarrow> \<forall>m\<in>ran (map_of xs). P m"
  using ran_map_of_entries [of xs] by blast

lemma lookup_requested_ran:
  "lookup_requested env sel req = Inr res \<Longrightarrow>
     set res \<subseteq> set sel \<union> ran (map_of (e_modules env))"
proof (induction req arbitrary: sel)
  case Nil
  then show ?case by simp
next
  case (Cons n req)
  from Cons.prems obtain m where m: "get_module env n = Inr m"
    and run: "lookup_requested env (sel @ [m]) req = Inr res"
    by (auto split: sum.splits)
  from m have "m \<in> ran (map_of (e_modules env))"
    by (auto simp: get_module_Inr ran_def)
  with Cons.IH [OF run] show ?case by auto
qed

text \<open>C2: when the request is \<open>A\<close>, \<open>A\<close> depends on \<open>B\<close>, \<open>B\<close> depends on \<open>C\<close>, \<open>C\<close> on
  nothing, and all three are registered in the Environment, the resolution returns a
  sequence whose elements are exactly \<open>A\<close>, \<open>B\<close> and \<open>C\<close>, each once, with \<open>A\<close> first.\<close>

theorem resolve_dependencies_chain:
  assumes A: "map_of (e_modules (p_environment self)) a = Some A"
    and B: "map_of (e_modules (p_environment self)) b = Some B"
    and C: "map_of (e_modules (p_environment self)) c = Some C"
    and dA: "m_dependencies A = [b]"
    and dB: "m_dependencies B = [c]"
    and dC: "m_dependencies C = []"
  shows "\<exists>res. resolve_dependencies self modules [a] = Some (Inr res)
           \<and> set res = {A, B, C} \<and> distinct res \<and> hd res = A"
proof -
  from dA dC have AC: "A \<noteq> C" by auto
  from dB dC have BC: "B \<noteq> C" by auto
  have AB: "A \<noteq> B"
  proof
    assume "A = B"
    with dA dB have "b = c" by simp
    with B C have "B = C" by simp
    with BC show False by simp
  qed
  let ?env = "p_environment self"
  have gA: "get_module ?env a = Inr A" and gB: "get_module ?env b = Inr B"
    and gC: "get_module ?env c = Inr C"
    using A B C by (simp_all add: get_module_Inr)
  have s1: "scan_current ?env [A] [] [A] = Inr [B]"
    using AB by (simp add: dA gB)
  have s2: "scan_current ?env [A, B] [] [B] = Inr [C]"
    using AC BC by (simp add: dB gC)
  have s3: "scan_current ?env [A, B, C] [] [C] = Inr []"
    by (simp add: dC)
  have l3: "resolve_loop ?env [A, B, C] [C] = Some (Inr [A, B, C])"
    by (subst resolve_loop.simps) (simp add: dC)
  have l2: "resolve_loop ?env [A, B] [B] = Some (Inr [A, B, C])"
    using AC BC by (subst resolve_loop.simps) (simp add: dB gC l3)
  have l1: "resolve_loop ?env [A] [A] = Some (Inr [A, B, C])"
    using AB by (subst resolve_loop.simps) (simp add: dA gB l2)
  have "resolve_dependencies self modules [a] = Some (Inr [A, B, C])"
    by (simp add: resolve_dependencies_def gA l1)
  with AB AC BC show ?thesis by auto
qed

theorem resolve_dependencies_chain_witness:
  "\<exists>res. resolve_dependencies chain_parser () [''core:a''] = Some (Inr res)
     \<and> set res = {example_module ''a'' [''core:b''], example_module ''b'' [''core:c''],
                   example_module ''c'' []}
     \<and> distinct res \<and> hd res = example_module ''a'' [''core:b'']"
  by (rule resolve_dependencies_chain [where b = "''core:b''" and c = "''core:c''"])
     (simp_all add: chain_parser_def example_module_def)

text \<open>A request that names the same module twice comes back with that module twice:
  the requested modules are appended without a membership test.\<close>

theorem resolve_dependencies_repeated_request:
  "resolve_dependencies chain_parser () [''core:c'', ''core:c'']
     = Some (Inr [example_module ''c'' [], example_module ''c'' []])
   \<and> \<not> distinct [example_module ''c'' [], example_module ''c'' []]"
  by code_simp

text \<open>C3 (amended): for every dependency graph, cyclic or not, the sequence returned by
  the resolution holds each module exactly once precisely when the request itself
  names no module twice; only dependencies are filtered against what is selected.\<close>

theorem resolve_dependencies_distinct:
  assumes "resolve_dependencies self modules requested_modules = Some (Inr res)"
  shows "distinct res \<longleftrightarrow>
           distinct (map (map_of (e_modules (p_environment self))) requested_modules)"
proof -
  from assms obtain sel where sel: "lookup_requested (p_environment self) [] requested_modules = Inr sel"
    and run: "resolve_loop (p_environment self) sel sel = Some (Inr res)"
    by (auto simp: resolve_dependencies_def split: sum.splits)
  from lookup_requested_Inr [OF sel]
  have "map Some sel = map (map_of (e_modules (p_environment self))) requested_modules" by simp
  then have eq: "distinct (map (map_of (e_modules (p_environment self))) requested_modules)
      \<longleftrightarrow> distinct sel"
    by (metis distinct_map inj_Some inj_on_subset subset_UNIV)
  from resolve_loop_prefix [OF run] obtain more where "res = sel @ more" by blast
  then have "distinct res \<Longrightarrow> distinct sel" by simp
  with resolve_loop_distinct [OF run] eq show ?thesis by blast
qed

theorem resolve_dependencies_distinct_witness:
  "resolve_dependencies cycle_parser () [''core:a'']
     = Some (Inr [example_module ''a'' [''core:b''], example_module ''b'' [''core:a'']])
   \<and> distinct [example_module ''a'' [''core:b''], example_module ''b'' [''core:a'']]
   \<and> distinct (map (map_of (e_modules (p_environment cycle_parser))) [''core:a''])"
proof -
  have run: "resolve_dependencies cycle_parser () [''core:a'']
      = Some (Inr [example_module ''a'' [''core:b''], example_module ''b'' [''core:a'']])"
    by code_simp
  from resolve_dependencies_distinct [OF run] run show ?thesis by simp
qed

text \<open>C6: when every requested name and every dependency name of a registered module
  resolves in the (finite) Environment, the loop of the resolution exits and a
  sequence is returned, whatever the shape of the dependency graph. Each round that
  does not exit adds at least one registered module that was not selected before.\<close>

theorem resolve_dependencies_terminates:
  assumes req: "\<forall>n\<in>set requested_modules. map_of (e_modules (p_environment self)) n \<noteq> None"
    and closed: "\<forall>m\<in>ran (map_of (e_modules (p_environment self))).
        \<forall>d\<in>set (m_dependencies m). map_of (e_modules (p_environment self)) d \<noteq> None"
  shows "\<exists>res. resolve_dependencies self modules requested_modules = Some (Inr res)"
proof -
  let ?env = "p_environment self"
  from lookup_requested_total [OF req] obtain sel
    where sel: "lookup_requested ?env [] requested_modules = Inr sel" by blast
  from lookup_requested_ran [OF sel] have "set sel \<subseteq> ran (map_of (e_modules ?env))"
    by simp
  from resolve_loop_terminates [OF closed this] sel show ?thesis
    by (simp add: resolve_dependencies_def)
qed

theorem resolve_dependencies_terminates_witness:
  "list_all (\<lambda>n. map_of (e_modules (p_environment cycle_parser)) n \<noteq> None)
      [''core:b'', ''core:a'', ''core:b'']
   \<and> list_all (\<lambda>m. list_all (\<lambda>d. map_of (e_modules (p_environment cycle_parser)) d \<noteq> None)
                     (m_dependencies m))
        (map snd (e_modules (p_environment cycle_parser)))
   \<and> (\<exists>res. resolve_dependencies cycle_parser () [''core:b'', ''core:a'', ''core:b'']
          = Some (Inr res))"
proof (intro conjI)
  have req: "\<forall>n\<in>set [''core:b'', ''core:a'', ''core:b''].
       map_of (e_modules (p_environment cycle_parser)) n \<noteq> None"
    by (simp add: cycle_parser_def)
  have closed: "\<forall>m\<in>ran (map_of (e_modules (p_environment cycle_parser))).
        \<forall>d\<in>set (m_dependencies m). map_of (e_modules (p_environment cycle_parser)) d \<noteq> None"
    by (rule ball_ran_map_of) (simp add: cycle_parser_def example_module_def)
  from resolve_dependencies_terminates [OF req closed]
  show "\<exists>res. resolve_dependencies cycle_parser () [''core:b'', ''core:a'', ''core:b'']
          = Some (Inr res)" .
qed (simp_all add: cycle_parser_def example_module_def)

text \<open>C10: the argument \<open>modules\<close> has no influence on the result: two calls that differ
  only in it return the same value.\<close>

theorem resolve_dependencies_ignores_modules:
  "resolve_dependencies self modules1 requested_modules
     = resolve_dependencies self modules2 requested_modules"
  by (simp add: resolve_dependencies_def)

theorem resolve_dependencies_ignores_modules_witness:
  "resolve_dependencies chain_parser (e_modules (p_environment chain_parser)) [''core:a'']
     = resolve_dependencies chain_parser ([] :: (string, string Module) dict) [''core:a'']"
  by (rule resolve_dependencies_ignores_modules)

section \<open>Properties of merge_repository_options\<close>

subsection \<open>Splitting keys\<close>

lemma str_split_nonempty [simp]: "str_split sep s \<noteq> []"
  by (induction s) (auto split: list.splits)

lemma str_split_no_sep: "sep \<notin> set s \<Longrightarrow> str_split sep s = [s]"
  by (induction s) auto

lemma str_split_single: "str_split sep s = [w] \<Longrightarrow> s = w"
  by (induction s arbitrary: w) (auto split: if_splits list.splits)

lemma str_split_wildcard: "str_split sep s = [ [], w] \<Longrightarrow> s = sep # w"
  by (cases s) (auto split: if_splits list.splits dest: str_split_single)

subsection \<open>The two indexes\<close>

lemma lookup_list_Nil [simp]: "lookup_list [] k = []"
  by (simp add: lookup_list_def)

lemma by_name_index_options:
  "lookup_list (snd (index_options rn idx opts)) k
     = lookup_list (snd idx) k @ map snd (filter (\<lambda>p. fst p = k) opts)"
proof (induction opts arbitrary: idx)
  case Nil
  then show ?case by simp
next
  case (Cons p opts)
  obtain cn a where p: "p = (cn, a)" by (cases p)
  show ?case
    unfolding p by (simp add: Let_def Cons.IH) (simp add: lookup_list_def update_conv')
qed

lemma by_name_index_repositories:
  "lookup_list (snd (index_repositories idx repos)) k
     = lookup_list (snd idx) k
         @ map snd (filter (\<lambda>p. fst p = k) (concat (map (\<lambda>(rn, r). r_options r) repos)))"
proof (induction repos arbitrary: idx)
  case Nil
  then show ?case by simp
next
  case (Cons p repos)
  obtain rn r where p: "p = (rn, r)" by (cases p)
  show ?case
    unfolding p by (simp add: Cons.IH by_name_index_options)
qed

lemma by_name_build_indexes:
  "lookup_list (snd (build_indexes self)) k
     = map snd (filter (\<lambda>p. fst p = k) (declared_options self))"
  by (simp add: build_indexes_def by_name_index_repositories declared_options_def)

lemma by_full_index_options:
  "map_of (fst (index_options rn idx opts))
     = map_of (fst idx) ++ map_of (rev (map (\<lambda>(cn, a). (rn @ '':'' @ cn, a)) opts))"
proof (induction opts arbitrary: idx)
  case Nil
  then show ?case by simp
next
  case (Cons p opts)
  obtain cn a where p: "p = (cn, a)" by (cases p)
  show ?case
    unfolding p
    by (rule ext) (auto simp: Let_def Cons.IH update_conv' map_add_def split: option.splits)
qed


lemma by_full_index_repositories:
  "map_of (fst (index_repositories idx repos))
     = map_of (fst idx) ++ map_of (rev (concat (map (\<lambda>(rn, r).
          map (\<lambda>(cn, a). (rn @ '':'' @ cn, a)) (r_options r)) repos)))"
proof (induction repos arbitrary: idx)
  case Nil
  then show ?case by simp
next
  case (Cons p repos)
  obtain rn r where p: "p = (rn, r)" by (cases p)
  show ?case
    unfolding p by (simp add: Cons.IH by_full_index_options)
qed

lemma distinct_index_options:
  "distinct (map fst (fst idx)) \<Longrightarrow> distinct (map fst (fst (index_options rn idx opts)))"
proof (induction opts arbitrary: idx)
  case Nil
  then show ?case by simp
next
  case (Cons p opts)
  obtain cn a where p: "p = (cn, a)" by (cases p)
  from Cons.prems show ?case
    unfolding p by (simp add: Let_def Cons.IH distinct_update)
qed

lemma distinct_index_repositories:
  "distinct (map fst (fst idx)) \<Longrightarrow> distinct (map fst (fst (index_repositories idx repos)))"
proof (induction repos arbitrary: idx)
  case Nil
  then show ?case by simp
next
  case (Cons p repos)
  obtain rn r where p: "p = (rn, r)" by (cases p)
  from Cons.prems show ?case
    unfolding p by (simp add: Cons.IH distinct_index_options)
qed


lemma map_snd_qualified_options:
  "map snd (qualified_options self) = map snd (declared_options self)"
  by (simp add: qualified_options_def declared_options_def map_concat comp_def
        case_prod_unfold)


lemma indexed_options_declared:
  "snd ` set (fst (build_indexes self)) \<subseteq> snd ` set (declared_options self)"
proof
  fix a assume "a \<in> snd ` set (fst (build_indexes self))"
  then obtain k where "(k, a) \<in> set (fst (build_indexes self))" by auto
  moreover have "distinct (map fst (fst (build_indexes self)))"
    unfolding build_indexes_def by (rule distinct_index_repositories) simp
  ultimately have "map_of (fst (build_indexes self)) k = Some a" by simp
  then have "map_of (rev (qualified_options self)) k = Some a"
    by (simp add: build_indexes_def by_full_index_repositories qualified_options_def)
  then have "(k, a) \<in> set (qualified_options self)"
    by (auto dest: map_of_SomeD)
  then have "a \<in> set (map snd (qualified_options self))" by force
  then show "a \<in> snd ` set (declared_options self)"
    by (simp add: map_snd_qualified_options)
qed


lemma by_name_members:
  "a \<in> set (lookup_list (snd (build_indexes self)) oname)
     \<longleftrightarrow> (oname, a) \<in> set (declared_options self)"
proof -
  have "a \<in> snd ` {p \<in> set xs. fst p = oname} \<longleftrightarrow> (oname, a) \<in> set xs" for xs :: "(string \<times> addr) list"
    by (auto simp: image_iff)
  then show ?thesis by (simp add: by_name_build_indexes)
qed

lemma same_object_same_name:
  assumes "distinct (map snd xs)" "(k1, a) \<in> set xs" "(k2, a) \<in> set xs"
  shows "k1 = k2"
proof -
  from assms(1) have "inj_on snd (set xs)" by (simp add: distinct_map)
  from inj_onD [OF this _ assms(2,3)] show ?thesis by simp
qed

subsection \<open>The override loop and the final check\<close>

lemma set_values_apply:
  "set_values h v as a = (if a \<in> set as then (h a)\<lparr>o_value := Some v\<rparr> else h a)"
  by (induction as arbitrary: h) (auto simp: set_value_def)

lemma apply_override_wildcard:
  "apply_override bf bn h (CHR '':'' # oname, v) = Inr h' \<Longrightarrow> CHR '':'' \<notin> set oname \<Longrightarrow>
     h' = set_values h v (lookup_list bn oname) \<and> map_of bn oname \<noteq> None"
  by (auto simp: apply_override_def str_split_no_sep getitem_def lookup_list_def
        split: option.splits)

lemma apply_override_Inr:
  "apply_override bf bn h (k, v) = Inr h' \<Longrightarrow>
     (\<exists>oname. str_split CHR '':'' k = [ [], oname] \<and> h' = set_values h v (lookup_list bn oname))
     \<or> (length (str_split CHR '':'' k) = 3 \<and> h' = h)"
proof -
  assume run: "apply_override bf bn h (k, v) = Inr h'"
  show ?thesis
  proof (cases "length (str_split CHR '':'' k) = 2")
    case True
    then obtain x y where xy: "str_split CHR '':'' k = [x, y]"
      by (cases "str_split CHR '':'' k" rule: list.exhaust)
         (auto simp: length_Suc_conv)
    with run show ?thesis
      by (auto simp: apply_override_def getitem_def lookup_list_def Let_def
            split: option.splits if_splits)
  next
    case False
    with run show ?thesis
      by (auto simp: apply_override_def Let_def split: if_splits)
  qed
qed

lemma apply_overrides_append:
  "apply_overrides bf bn h (xs @ ys)
     = (case apply_overrides bf bn h xs of
          Inl e \<Rightarrow> Inl e
        | Inr h1 \<Rightarrow> apply_overrides bf bn h1 ys)"
  by (induction xs arbitrary: h) (auto split: sum.splits)

lemma apply_overrides_untouched:
  "apply_overrides bf bn h cfg = Inr h' \<Longrightarrow>
     \<forall>(k, v)\<in>set cfg. \<forall>oname. str_split CHR '':'' k = [ [], oname] \<longrightarrow> a \<notin> set (lookup_list bn oname) \<Longrightarrow>
     h' a = h a"
proof (induction cfg arbitrary: h)
  case Nil
  then show ?case by simp
next
  case (Cons p cfg)
  obtain k v where p: "p = (k, v)" by (cases p)
  from Cons.prems(1) obtain h1 where h1: "apply_override bf bn h (k, v) = Inr h1"
    and run: "apply_overrides bf bn h1 cfg = Inr h'"
    by (auto simp: p split: sum.splits)
  from apply_override_Inr [OF h1] Cons.prems(2) have "h1 a = h a"
    by (auto simp: p set_values_apply)
  moreover from Cons.IH [OF run] Cons.prems(2) have "h' a = h1 a" by simp
  ultimately show ?case by simp
qed




subsection \<open>The example repositories\<close>

lemma options_parser_indexes:
  "build_indexes options_parser
     = ([(''core:arch'', 0), (''ext:arch'', 1), (''ext:cpu'', 2)],
        [(''arch'', [0, 1]), (''cpu'', [2])])"
  by (simp add: build_indexes_def options_parser_def lookup_list_def Let_def)

lemma options_parser_wildcard:
  "apply_config options_parser options_store [('':arch'', ''avr'')]
     = Inr (set_values options_store ''avr'' [0, 1])"
  by (simp add: apply_config_def options_parser_indexes apply_override_def getitem_def Let_def)

lemma options_parser_declared:
  "declared_options options_parser = [(''arch'', 0), (''arch'', 1), (''cpu'', 2)]"
  by (simp add: declared_options_def options_parser_def)

subsection \<open>Claims\<close>

text \<open>C1: a qualified override should set the value of the one Option it names. On the
  example repositories the override \<open>core:arch = avr\<close> names an Option that the
  full-name index holds, and the merge ends in a \<open>TypeError\<close>: the index is subscripted
  with the list of the two key parts instead of the key.\<close>

theorem merge_qualified_override_raises:
  "map_of (fst (build_indexes options_parser)) ''core:arch'' = Some 0
   \<and> merge_repository_options options_parser options_store [(''core:arch'', ''avr'')]
       = Inl (TypeError (''unhashable type: '' @ sq @ ''list'' @ sq))"
  by (simp add: merge_repository_options_def apply_config_def options_parser_indexes
        apply_override_def getitem_def Let_def)





text \<open>C5: when the merge returns, every Option declared under the bare name of a
  wildcard entry \<open>:option\<close>, in whatever repository, holds the value of that entry.
  The entries are those of a dictionary (distinct keys) and every declaration has an
  Option object of its own.\<close>

theorem merge_wildcard_override:
  assumes run: "merge_repository_options self h config_options = Inr (by_full, h')"
    and entry: "(CHR '':'' # oname, v) \<in> set config_options"
    and two: "CHR '':'' \<notin> set oname"
    and keys: "distinct (map fst config_options)"
    and objs: "distinct (map snd (declared_options self))"
    and decl: "(oname, a) \<in> set (declared_options self)"
  shows "o_value (h' a) = Some v"
proof -
  let ?bf = "fst (build_indexes self)" and ?bn = "snd (build_indexes self)"
  from run have ov: "apply_overrides ?bf ?bn h config_options = Inr h'"
    by (auto simp: merge_repository_options_def apply_config_def split: sum.splits)
  from entry obtain cfg1 cfg2 where cfg: "config_options = cfg1 @ (CHR '':'' # oname, v) # cfg2"
    by (auto dest: split_list)
  from ov obtain h1 h2 where h1: "apply_overrides ?bf ?bn h cfg1 = Inr h1"
    and h2: "apply_override ?bf ?bn h1 (CHR '':'' # oname, v) = Inr h2"
    and h3: "apply_overrides ?bf ?bn h2 cfg2 = Inr h'"
    by (auto simp: cfg apply_overrides_append split: sum.splits)
  from decl have a_in: "a \<in> set (lookup_list ?bn oname)"
    by (simp add: by_name_members)
  from apply_override_wildcard [OF h2 two] a_in have set: "o_value (h2 a) = Some v"
    by (simp add: set_values_apply)
  have "\<forall>(k, v')\<in>set cfg2. \<forall>oname'. str_split CHR '':'' k = [ [], oname']
          \<longrightarrow> a \<notin> set (lookup_list ?bn oname')"
  proof (intro ballI, clarify)
    fix k v' oname'
    assume kv: "(k, v') \<in> set cfg2" and sp: "str_split CHR '':'' k = [ [], oname']"
      and a': "a \<in> set (lookup_list ?bn oname')"
    from sp have k: "k = CHR '':'' # oname'" by (rule str_split_wildcard)
    from keys have "CHR '':'' # oname \<notin> fst ` set cfg2" by (simp add: cfg)
    with kv have "k \<noteq> CHR '':'' # oname" by (metis fst_conv image_eqI)
    with k have ne: "oname' \<noteq> oname" by simp
    from a' have "(oname', a) \<in> set (declared_options self)"
      by (simp add: by_name_members)
    from same_object_same_name [OF objs this decl] have "oname' = oname" .
    with ne show False by simp
  qed
  from apply_overrides_untouched [OF h3 this] set show ?thesis by simp
qed

theorem merge_wildcard_override_witness:
  "merge_repository_options options_parser options_store
       [('':arch'', ''avr''), (''core:uart:speed'', ''9600'')]
     = Inr (fst (build_indexes options_parser), set_values options_store ''avr'' [0, 1])
   \<and> distinct (map snd (declared_options options_parser))
   \<and> o_value (set_values options_store ''avr'' [0, 1] 0) = Some ''avr''
   \<and> o_value (set_values options_store ''avr'' [0, 1] 1) = Some ''avr''"
proof (intro conjI)
  show run: "merge_repository_options options_parser options_store
       [('':arch'', ''avr''), (''core:uart:speed'', ''9600'')]
     = Inr (fst (build_indexes options_parser), set_values options_store ''avr'' [0, 1])"
    by (simp add: merge_repository_options_def apply_config_def options_parser_indexes
          apply_override_def getitem_def options_store_def set_value_def Let_def)
  show objs: "distinct (map snd (declared_options options_parser))"
    by (simp add: options_parser_declared)
  show "o_value (set_values options_store ''avr'' [0, 1] 0) = Some ''avr''"
    by (rule merge_wildcard_override [OF run _ _ _ objs, where oname = "''arch''"])
       (simp_all add: options_parser_declared)
  show "o_value (set_values options_store ''avr'' [0, 1] 1) = Some ''avr''"
    by (rule merge_wildcard_override [OF run _ _ _ objs, where oname = "''arch''"])
       (simp_all add: options_parser_declared)
qed

text \<open>A key without any \<open>:\<close> has one part and is rejected with a configuration
  error.\<close>

theorem merge_unqualified_key_rejected:
  "length (str_split CHR '':'' ''arch'') = 1
   \<and> merge_repository_options options_parser options_store [(''arch'', ''avr'')]
       = Inl (BlobException (invalid_option_message ''arch''))"
  by (simp add: merge_repository_options_def apply_config_def apply_override_def Let_def)

text \<open>C8 (amended): an entry whose key has exactly three parts is accepted and has no
  effect: the merge gives the same result with and without it. An entry whose key has
  one part or more than three parts is rejected with the configuration error
  \<open>Invalid option\<close> as soon as the loop reaches it.\<close>

theorem merge_other_key_shapes:
  "(length (str_split CHR '':'' k) = 3 \<longrightarrow>
      merge_repository_options self h (cfg1 @ (k, v) # cfg2)
        = merge_repository_options self h (cfg1 @ cfg2))
   \<and> (length (str_split CHR '':'' k) \<noteq> 2 \<and> length (str_split CHR '':'' k) \<noteq> 3
        \<and> apply_config self h cfg1 = Inr h1 \<longrightarrow>
      merge_repository_options self h (cfg1 @ (k, v) # cfg2)
        = Inl (BlobException (invalid_option_message k)))"
proof (intro conjI impI)
  assume three: "length (str_split CHR '':'' k) = 3"
  then have skip: "\<And>bf bn h0. apply_override bf bn h0 (k, v) = Inr h0"
    by (simp add: apply_override_def)
  have "apply_config self h (cfg1 @ (k, v) # cfg2) = apply_config self h (cfg1 @ cfg2)"
    by (simp add: apply_config_def apply_overrides_append skip split: sum.splits)
  then show "merge_repository_options self h (cfg1 @ (k, v) # cfg2)
        = merge_repository_options self h (cfg1 @ cfg2)"
    by (simp add: merge_repository_options_def)
next
  assume other: "length (str_split CHR '':'' k) \<noteq> 2 \<and> length (str_split CHR '':'' k) \<noteq> 3
        \<and> apply_config self h cfg1 = Inr h1"
  then have "\<And>bf bn h0. apply_override bf bn h0 (k, v)
      = Inl (BlobException (invalid_option_message k))"
    by (simp add: apply_override_def)
  with other have "apply_config self h (cfg1 @ (k, v) # cfg2)
      = Inl (BlobException (invalid_option_message k))"
    by (simp add: apply_config_def apply_overrides_append)
  then show "merge_repository_options self h (cfg1 @ (k, v) # cfg2)
        = Inl (BlobException (invalid_option_message k))"
    by (simp add: merge_repository_options_def)
qed

theorem merge_other_key_shapes_witness:
  "length (str_split CHR '':'' ''core:uart:speed'') = 3
   \<and> merge_repository_options options_parser options_store
         ([('':arch'', ''avr'')] @ (''core:uart:speed'', ''9600'') # [])
       = merge_repository_options options_parser options_store ([('':arch'', ''avr'')] @ [])
   \<and> length (str_split CHR '':'' ''a:b:c:d'') = 4
   \<and> apply_config options_parser options_store [('':arch'', ''avr'')]
       = Inr (set_values options_store ''avr'' [0, 1])
   \<and> merge_repository_options options_parser options_store
         ([('':arch'', ''avr'')] @ (''a:b:c:d'', ''x'') # [(''core:uart:speed'', ''9600'')])
       = Inl (BlobException (invalid_option_message ''a:b:c:d''))"
proof (intro conjI)
  show three: "length (str_split CHR '':'' ''core:uart:speed'') = 3" by simp
  show four: "length (str_split CHR '':'' ''a:b:c:d'') = 4" by simp
  show "apply_config options_parser options_store [('':arch'', ''avr'')]
       = Inr (set_values options_store ''avr'' [0, 1])"
    by (rule options_parser_wildcard)
  from merge_other_key_shapes [where k = "''core:uart:speed''" and self = options_parser
      and h = options_store and ?cfg1.0 = "[('':arch'', ''avr'')]" and v = "''9600''"
      and ?cfg2.0 = "[]"] three
  show "merge_repository_options options_parser options_store
         ([('':arch'', ''avr'')] @ (''core:uart:speed'', ''9600'') # [])
       = merge_repository_options options_parser options_store ([('':arch'', ''avr'')] @ [])"
    by blast
  from merge_other_key_shapes [where k = "''a:b:c:d''" and self = options_parser
      and h = options_store and ?cfg1.0 = "[('':arch'', ''avr'')]" and v = "''x''"
      and ?cfg2.0 = "[(''core:uart:speed'', ''9600'')]"
      and ?h1.0 = "set_values options_store ''avr'' [0, 1]"] four options_parser_wildcard
  show "merge_repository_options options_parser options_store
         ([('':arch'', ''avr'')] @ (''a:b:c:d'', ''x'') # [(''core:uart:speed'', ''9600'')])
       = Inl (BlobException (invalid_option_message ''a:b:c:d''))"
    by simp
qed

section \<open>Properties of _parse_module\<close>

lemma get_functions_all:
  assumes "map_of local ''init'' = Some fi" "map_of local ''prepare'' = Some fp"
    "map_of local ''build'' = Some fb"
  shows "get_functions local (new_Module r f p) [''init'', ''prepare'', ''build'']
           = Inr ((new_Module r f p)\<lparr>m_functions :=
                    [(''init'', fi), (''prepare'', fp), (''build'', fb)]\<rparr>)"
  using assms by (simp add: new_Module_def)

lemma get_functions_missing:
  "\<exists>fn\<in>set fns. map_of local fn = None \<Longrightarrow>
     \<exists>fn\<in>set fns. map_of local fn = None
        \<and> get_functions local m fns = Inl (BlobException (no_function_message fn))"
proof (induction fns arbitrary: m)
  case Nil
  then show ?case by simp
next
  case (Cons fn fns)
  show ?case
  proof (cases "map_of local fn")
    case None
    then show ?thesis by simp
  next
    case (Some f)
    with Cons.prems have "\<exists>fn\<in>set fns. map_of local fn = None" by auto
    from Cons.IH [OF this, of "m\<lparr>m_functions := AList.update fn f (m_functions m)\<rparr>"] Some
    show ?thesis by auto
  qed
qed

text \<open>C7: for a definition unit that executes, loading fails with a configuration
  error when one of \<open>init\<close>, \<open>prepare\<close>, \<open>build\<close> is missing (the error names a missing
  one) and when \<open>init\<close> returns without having set a name; when the three are defined
  and \<open>init\<close> sets a name, loading returns a module with that name and the three
  callbacks stored under their names.\<close>

theorem parse_module_outcome:
  assumes exec: "exec_file modulefile = Inr local"
  shows "((map_of local ''init'' = None \<or> map_of local ''prepare'' = None
            \<or> map_of local ''build'' = None) \<longrightarrow>
          (\<exists>fn\<in>set [''init'', ''prepare'', ''build'']. map_of local fn = None \<and>
             parse_module exec_file call_init repo modulefile
               = Inl (BlobException (while_parsing_message modulefile
                        (BlobException (no_function_message fn))))))
       \<and> (map_of local ''init'' = Some fi \<and> map_of local ''prepare'' = Some fp
            \<and> map_of local ''build'' = Some fb
            \<and> call_init fi ((new_Module (r_name repo) modulefile (dirname modulefile))
                  \<lparr>m_functions := [(''init'', fi), (''prepare'', fp), (''build'', fb)]\<rparr>)
                = Inr (None, deps) \<longrightarrow>
          parse_module exec_file call_init repo modulefile
            = Inl (BlobException (while_parsing_message modulefile
                     (BlobException no_module_name_message))))
       \<and> (map_of local ''init'' = Some fi \<and> map_of local ''prepare'' = Some fp
            \<and> map_of local ''build'' = Some fb
            \<and> call_init fi ((new_Module (r_name repo) modulefile (dirname modulefile))
                  \<lparr>m_functions := [(''init'', fi), (''prepare'', fp), (''build'', fb)]\<rparr>)
                = Inr (Some n, deps) \<longrightarrow>
          (\<exists>m. parse_module exec_file call_init repo modulefile = Inr m
             \<and> m_name m = Some n
             \<and> map_of (m_functions m) ''init'' = Some fi
             \<and> map_of (m_functions m) ''prepare'' = Some fp
             \<and> map_of (m_functions m) ''build'' = Some fb))"
proof (intro conjI impI)
  assume "map_of local ''init'' = None \<or> map_of local ''prepare'' = None
            \<or> map_of local ''build'' = None"
  then have "\<exists>fn\<in>set [''init'', ''prepare'', ''build'']. map_of local fn = None" by auto
  from get_functions_missing [OF this, of "new_Module (r_name repo) modulefile (dirname modulefile)"]
  obtain fn where fn: "fn \<in> set [''init'', ''prepare'', ''build'']" "map_of local fn = None"
    "get_functions local (new_Module (r_name repo) modulefile (dirname modulefile))
       [''init'', ''prepare'', ''build''] = Inl (BlobException (no_function_message fn))"
    by blast
  from fn(3) exec have "parse_module exec_file call_init repo modulefile
               = Inl (BlobException (while_parsing_message modulefile
                        (BlobException (no_function_message fn))))"
    by (simp add: parse_module_def parse_module_body_def)
  with fn(1,2) show "\<exists>fn\<in>set [''init'', ''prepare'', ''build'']. map_of local fn = None \<and>
             parse_module exec_file call_init repo modulefile
               = Inl (BlobException (while_parsing_message modulefile
                        (BlobException (no_function_message fn))))"
    by blast
next
  assume a: "map_of local ''init'' = Some fi \<and> map_of local ''prepare'' = Some fp
            \<and> map_of local ''build'' = Some fb
            \<and> call_init fi ((new_Module (r_name repo) modulefile (dirname modulefile))
                  \<lparr>m_functions := [(''init'', fi), (''prepare'', fp), (''build'', fb)]\<rparr>)
                = Inr (None, deps)"
  then have "get_functions local (new_Module (r_name repo) modulefile (dirname modulefile))
       [''init'', ''prepare'', ''build'']
     = Inr ((new_Module (r_name repo) modulefile (dirname modulefile))
              \<lparr>m_functions := [(''init'', fi), (''prepare'', fp), (''build'', fb)]\<rparr>)"
    by (intro get_functions_all) simp_all
  with a exec show "parse_module exec_file call_init repo modulefile
            = Inl (BlobException (while_parsing_message modulefile
                     (BlobException no_module_name_message)))"
    by (simp add: parse_module_def parse_module_body_def getitem_def)
next
  assume a: "map_of local ''init'' = Some fi \<and> map_of local ''prepare'' = Some fp
            \<and> map_of local ''build'' = Some fb
            \<and> call_init fi ((new_Module (r_name repo) modulefile (dirname modulefile))
                  \<lparr>m_functions := [(''init'', fi), (''prepare'', fp), (''build'', fb)]\<rparr>)
                = Inr (Some n, deps)"
  then have "get_functions local (new_Module (r_name repo) modulefile (dirname modulefile))
       [''init'', ''prepare'', ''build'']
     = Inr ((new_Module (r_name repo) modulefile (dirname modulefile))
              \<lparr>m_functions := [(''init'', fi), (''prepare'', fp), (''build'', fb)]\<rparr>)"
    by (intro get_functions_all) simp_all
  with a exec show "\<exists>m. parse_module exec_file call_init repo modulefile = Inr m
             \<and> m_name m = Some n
             \<and> map_of (m_functions m) ''init'' = Some fi
             \<and> map_of (m_functions m) ''prepare'' = Some fp
             \<and> map_of (m_functions m) ''build'' = Some fb"
    by (simp add: parse_module_def parse_module_body_def getitem_def)
qed

theorem parse_module_outcome_witness:
  "parse_module example_units example_init gating_repository ''core/bad.py''
     = Inl (BlobException (while_parsing_message ''core/bad.py''
              (BlobException (no_function_message ''prepare''))))
   \<and> parse_module example_units example_init gating_repository ''core/anon.py''
     = Inl (BlobException (while_parsing_message ''core/anon.py''
              (BlobException no_module_name_message)))
   \<and> (\<exists>m. parse_module example_units example_init gating_repository ''core/uart.py'' = Inr m
          \<and> m_name m = Some ''uart''
          \<and> map_of (m_functions m) ''init'' = Some ''uart.init''
          \<and> map_of (m_functions m) ''prepare'' = Some ''uart.prepare''
          \<and> map_of (m_functions m) ''build'' = Some ''uart.build'')"
proof (intro conjI)
  have bad: "example_units ''core/bad.py'' = Inr [(''init'', ''bad.init''), (''build'', ''bad.build'')]"
    by (simp add: example_units_def)
  from parse_module_outcome [where exec_file = example_units and modulefile = "''core/bad.py''"
      and call_init = example_init and repo = gating_repository, OF bad]
  show "parse_module example_units example_init gating_repository ''core/bad.py''
     = Inl (BlobException (while_parsing_message ''core/bad.py''
              (BlobException (no_function_message ''prepare''))))"
    by simp
  have anon: "example_units ''core/anon.py''
      = Inr [(''init'', ''anon.init''), (''prepare'', ''anon.prepare''), (''build'', ''anon.build'')]"
    by (simp add: example_units_def)
  from parse_module_outcome [where exec_file = example_units and modulefile = "''core/anon.py''"
      and call_init = example_init and repo = gating_repository
      and fi = "''anon.init''" and fp = "''anon.prepare''" and fb = "''anon.build''"
      and deps = "[''core:uart'']", OF anon]
  show "parse_module example_units example_init gating_repository ''core/anon.py''
     = Inl (BlobException (while_parsing_message ''core/anon.py''
              (BlobException no_module_name_message)))"
    by (simp add: example_init_def)
  have uart: "example_units ''core/uart.py''
      = Inr [(''init'', ''uart.init''), (''prepare'', ''uart.prepare''), (''build'', ''uart.build'')]"
    by (simp add: example_units_def)
  from parse_module_outcome [where exec_file = example_units and modulefile = "''core/uart.py''"
      and call_init = example_init and repo = gating_repository
      and fi = "''uart.init''" and fp = "''uart.prepare''" and fb = "''uart.build''"
      and n = "''uart''" and deps = "[]", OF uart]
  show "\<exists>m. parse_module example_units example_init gating_repository ''core/uart.py'' = Inr m
          \<and> m_name m = Some ''uart''
          \<and> map_of (m_functions m) ''init'' = Some ''uart.init''
          \<and> map_of (m_functions m) ''prepare'' = Some ''uart.prepare''
          \<and> map_of (m_functions m) ''build'' = Some ''uart.build''"
    by (simp add: example_init_def)
qed

section \<open>Properties of prepare_modules\<close>





end
